theory Spec2Isabelle
  imports Complex_Main
begin

section \<open>The episode statistics callback of Learn/Train.py\<close>

subsection \<open>Data\<close>

text \<open>
  The callback reads \<open>self.locals\<close>, the dictionary of the training loop's local
  variables. Of that dictionary only the key \<open>'infos'\<close> is read; its value is the batch
  (a list) of per-environment info dictionaries. An info dictionary maps names to
  entries; the entry under \<open>'episode'\<close> is itself a dictionary of named numbers
  (\<open>'r'\<close> the episode reward, \<open>'l'\<close> the episode length). Python numbers are taken as
  reals.
\<close>

type_synonym episode_info = "string \<rightharpoonup> real"
type_synonym info = "string \<rightharpoonup> episode_info"
type_synonym locals = "string \<rightharpoonup> info list"

text \<open>The two exceptions the subscripts of \<open>_on_step\<close> can raise.\<close>

datatype py_error = IndexError | KeyError

text \<open>The attributes set by \<open>__init__\<close>.\<close>

record callback =
  episode_rewards :: "real list"
  episode_lengths :: "real list"

definition init :: callback where
  "init = \<lparr>episode_rewards = [], episode_lengths = []\<rparr>"

text \<open>
  The one \<open>print\<close> of the callback. The line shows \<open>np.mean\<close> of a slice of each
  history (lines 36 to 38). \<open>np.mean\<close> is the library's: it returns a float64, got by
  rounded additions and a rounded division, and this theory does not compute it. The
  line is kept as the two slices handed to \<open>np.mean\<close>, the rewards first.
\<close>

datatype line = Debug "real list" "real list"

text \<open>
  The two values the line shows, \<open>avg_reward\<close> and \<open>avg_length\<close>, when \<open>mean\<close> is what
  \<open>np.mean\<close> computes.
\<close>

definition shown :: "(real list \<Rightarrow> 'm) \<Rightarrow> line \<Rightarrow> 'm \<times> 'm" where
  "shown mean dbg = (case dbg of Debug rs ls \<Rightarrow> (mean rs, mean ls))"

text \<open>
  The finite values of a float64, the type of Python's \<open>float\<close> and of the result of
  \<open>np.mean\<close>: an integer below \<open>2 ^ 53\<close> in magnitude times a power of two with an
  exponent from \<open>-1074\<close> to \<open>971\<close>.
\<close>

definition float64 :: "real set" where
  "float64 =
     {x. \<exists>m e :: int. \<bar>m\<bar> < 2 ^ 53 \<and> - 1074 \<le> e \<and> e \<le> 971 \<and> x = real_of_int m * 2 powi e}"

text \<open>
  What one call of \<open>_on_step\<close> leaves behind: the attributes after the call, the lines
  printed by the call, and either the exception raised or the value returned.
\<close>

record step_result =
  state :: callback
  printed :: "line list"
  outcome :: "py_error + bool"

subsection \<open>Python primitives used by the callback\<close>

text \<open>\<open>d.get(k, default)\<close>\<close>

definition dict_get :: "('k \<rightharpoonup> 'v) \<Rightarrow> 'k \<Rightarrow> 'v \<Rightarrow> 'v" where
  "dict_get d k dflt = (case d k of None \<Rightarrow> dflt | Some v \<Rightarrow> v)"

text \<open>\<open>d[k]\<close>, raising \<open>KeyError\<close> on a missing key\<close>

definition dict_item :: "('k \<rightharpoonup> 'v) \<Rightarrow> 'k \<Rightarrow> py_error + 'v" where
  "dict_item d k = (case d k of None \<Rightarrow> Inl KeyError | Some v \<Rightarrow> Inr v)"

text \<open>\<open>xs[0]\<close>, raising \<open>IndexError\<close> on the empty list\<close>

definition index0 :: "'a list \<Rightarrow> py_error + 'a" where
  "index0 xs = (case xs of [] \<Rightarrow> Inl IndexError | x # _ \<Rightarrow> Inr x)"

text \<open>\<open>xs[-10:]\<close>: the last ten entries, or all of them when there are fewer\<close>

definition last10 :: "'a list \<Rightarrow> 'a list" where
  "last10 xs = drop (length xs - 10) xs"

subsection \<open>\<open>RewardDebugCallback._on_step\<close>\<close>

text \<open>
  Lines 27 to 29: \<open>self.locals['infos'][0]['episode']\<close>, then its \<open>'r'\<close> and its
  \<open>'l'\<close>, each subscript raising when it fails. Nothing is written before all of them
  have succeeded.
\<close>

definition episode_fields :: "locals \<Rightarrow> py_error + (real \<times> real)" where
  "episode_fields locs =
     (case dict_item locs ''infos'' of Inl e \<Rightarrow> Inl e | Inr infos \<Rightarrow>
      case index0 infos of Inl e \<Rightarrow> Inl e | Inr i0 \<Rightarrow>
      case dict_item i0 ''episode'' of Inl e \<Rightarrow> Inl e | Inr episode_info \<Rightarrow>
      case dict_item episode_info ''r'' of Inl e \<Rightarrow> Inl e | Inr episode_reward \<Rightarrow>
      case dict_item episode_info ''l'' of Inl e \<Rightarrow> Inl e | Inr episode_length \<Rightarrow>
      Inr (episode_reward, episode_length))"

text \<open>Lines 31 and 32: the two appends.\<close>

definition append_episode :: "callback \<Rightarrow> real \<Rightarrow> real \<Rightarrow> callback" where
  "append_episode self r l =
     self\<lparr>episode_rewards := episode_rewards self @ [r],
          episode_lengths := episode_lengths self @ [l]\<rparr>"

text \<open>Lines 35 to 38: the statistics printed every tenth episode.\<close>

definition report :: "callback \<Rightarrow> line list" where
  "report self =
     (if length (episode_rewards self) mod 10 = 0
      then [Debug (last10 (episode_rewards self)) (last10 (episode_lengths self))]
      else [])"

definition on_step :: "callback \<Rightarrow> locals \<Rightarrow> step_result" where
  "on_step self locs =
     (case index0 (dict_get locs ''infos'' [Map.empty]) of
        Inl e \<Rightarrow> \<lparr>state = self, printed = [], outcome = Inl e\<rparr>
      | Inr i0 \<Rightarrow>
          if i0 ''episode'' \<noteq> None then
            (case episode_fields locs of
               Inl e \<Rightarrow> \<lparr>state = self, printed = [], outcome = Inl e\<rparr>
             | Inr (r, l) \<Rightarrow>
                 \<lparr>state = append_episode self r l,
                  printed = report (append_episode self r l),
                  outcome = Inr True\<rparr>)
          else \<lparr>state = self, printed = [], outcome = Inr True\<rparr>)"

text \<open>
  The training loop calls \<open>_on_step\<close> once after every environment step, on the same
  callback object. An exception raised by a call leaves the loop, so no later call is
  made. \<open>on_steps\<close> gives the result of every call that is made, in order.
\<close>

fun on_steps :: "callback \<Rightarrow> locals list \<Rightarrow> step_result list" where
  "on_steps self [] = []"
| "on_steps self (locs # rest) =
     on_step self locs #
       (case outcome (on_step self locs) of
          Inl e \<Rightarrow> []
        | Inr b \<Rightarrow> on_steps (state (on_step self locs)) rest)"

text \<open>The attributes after a run of calls.\<close>

definition final :: "callback \<Rightarrow> step_result list \<Rightarrow> callback" where
  "final self rs = (if rs = [] then self else state (last rs))"

subsection \<open>Sample notifications\<close>

text \<open>A step inside an episode: a batch of one info dictionary without entries.\<close>

definition plain_step :: locals where
  "plain_step = [''infos'' \<mapsto> [Map.empty]]"

text \<open>A step that ends an episode with reward \<open>r\<close> and length \<open>l\<close>.\<close>

definition episode_end :: "real \<Rightarrow> real \<Rightarrow> locals" where
  "episode_end r l = [''infos'' \<mapsto> [[''episode'' \<mapsto> [''r'' \<mapsto> r, ''l'' \<mapsto> l]]]]"

text \<open>A step whose \<open>'episode'\<close> entry has the reward but not the length.\<close>

definition episode_end_no_length :: "real \<Rightarrow> locals" where
  "episode_end_no_length r = [''infos'' \<mapsto> [[''episode'' \<mapsto> [''r'' \<mapsto> r]]]]"

text \<open>The locals without the key \<open>'infos'\<close>, and with an empty batch under it.\<close>

definition no_infos :: locals where
  "no_infos = Map.empty"

definition empty_infos :: locals where
  "empty_infos = [''infos'' \<mapsto> []]"

subsection \<open>Well-formed notifications\<close>

text \<open>The step metadata: entry 0 of the batch that line 26 inspects.\<close>

definition step_metadata :: "locals \<Rightarrow> py_error + info" where
  "step_metadata locs = index0 (dict_get locs ''infos'' [Map.empty])"

text \<open>
  A notification is well formed when the batch has an entry 0 and that entry, if it
  has an \<open>'episode'\<close> entry, has both \<open>'r'\<close> and \<open>'l'\<close> in it.
\<close>

definition well_formed :: "locals \<Rightarrow> bool" where
  "well_formed locs =
     (case step_metadata locs of
        Inl e \<Rightarrow> False
      | Inr i0 \<Rightarrow>
          (case i0 ''episode'' of
             None \<Rightarrow> True
           | Some ep \<Rightarrow> ep ''r'' \<noteq> None \<and> ep ''l'' \<noteq> None))"

subsection \<open>Episode outcomes carried by notifications\<close>

text \<open>
  The episode outcome a notification carries: the reward and the length in the
  \<open>'episode'\<close> entry of entry 0 of its batch, when all of these are there.
\<close>

definition marker :: "locals \<Rightarrow> (real \<times> real) option" where
  "marker locs =
     (case step_metadata locs of
        Inl e \<Rightarrow> None
      | Inr i0 \<Rightarrow>
          (case i0 ''episode'' of
             None \<Rightarrow> None
           | Some ep \<Rightarrow>
               (case ep ''r'' of
                  None \<Rightarrow> None
                | Some r \<Rightarrow> (case ep ''l'' of None \<Rightarrow> None | Some l \<Rightarrow> Some (r, l)))))"

text \<open>A notification carries a completion marker when entry 0 has an \<open>'episode'\<close> entry.\<close>

definition carries_marker :: "locals \<Rightarrow> bool" where
  "carries_marker locs =
     (case step_metadata locs of Inl e \<Rightarrow> False | Inr i0 \<Rightarrow> i0 ''episode'' \<noteq> None)"

text \<open>Runs of episode ends with the given rewards, each of length 10.\<close>

definition episodes :: "real list \<Rightarrow> locals list" where
  "episodes rs = map (\<lambda>r. episode_end r 10) rs"

definition one_to_ten :: "real list" where
  "one_to_ten = [1, 2, 3, 4, 5, 6, 7, 8, 9, 10]"

definition eleven_to_fifteen :: "real list" where
  "eleven_to_fifteen = [11, 12, 13, 14, 15]"

definition eleven_to_twenty :: "real list" where
  "eleven_to_twenty = [11, 12, 13, 14, 15, 16, 17, 18, 19, 20]"

text \<open>The lengths of ten such episodes.\<close>

definition ten_tens :: "real list" where
  "ten_tens = [10, 10, 10, 10, 10, 10, 10, 10, 10, 10]"

text \<open>
  The rewards \<open>0.1, 0.2, ..., 1.0\<close> as Python has them: the float64 values nearest to
  these decimals.
\<close>

definition tenths :: "real list" where
  "tenths =
     [3602879701896397 / 2 ^ 55, 3602879701896397 / 2 ^ 54, 5404319552844595 / 2 ^ 54,
      3602879701896397 / 2 ^ 53, 1 / 2, 5404319552844595 / 2 ^ 53,
      3152519739159347 / 2 ^ 52, 3602879701896397 / 2 ^ 52, 8106479329266893 / 2 ^ 53, 1]"

section \<open>The training script of Learn/Train.py, lines 75 to 115\<close>

subsection \<open>Library calls, events and exceptions\<close>

text \<open>
  From line 75 on the script is straight-line code around calls into the operating
  system and the training library. What those calls do is not the script's; the model
  takes their answers as given: which paths exist, and for each library call the
  exception it raises, if any. A \<open>KeyboardInterrupt\<close> is the operator's interrupt
  arriving while the call runs.
\<close>

datatype exn = KeyboardInterrupt | OtherException

record world =
  path_exists :: "string \<Rightarrow> bool"
  load_raises :: "exn option"
  new_raises :: "exn option"
  learn_raises :: "exn option"
  save_raises :: "exn option"

text \<open>The keyword arguments of the \<open>PPO(...)\<close> call of lines 83 to 94.\<close>

record hyperparams =
  policy :: string
  verbose :: nat
  n_steps :: nat
  batch_size :: nat
  learning_rate :: real
  max_grad_norm :: real
  ent_coef :: real
  gamma :: real
  gae_lambda :: real

text \<open>The lines the script prints, by what they say.\<close>

datatype message =
    Loading_existing string
  | Creating_new
  | Training_starts
  | Target_timesteps nat
  | Watch_unity_logs
  | Interrupt_detected
  | Model_saved string

text \<open>
  What the script does that can be seen from outside, in order; \<open>Exit\<close> is the end
  of the process, with the exception that ended it, if any.
\<close>

datatype event =
    Print message
  | PPO_load string
  | PPO_new hyperparams
  | Learn nat
  | Save string
  | Exit "exn option"

text \<open>
  A piece of the script, run: the events it made and the exception that left it, if
  any.
\<close>

type_synonym run = "event list \<times> exn option"

definition call :: "event \<Rightarrow> exn option \<Rightarrow> run" where
  "call ev raised = ([ev], raised)"

definition print_line :: "message \<Rightarrow> run" where
  "print_line m = ([Print m], None)"

text \<open>One statement after another: the second runs when the first did not raise.\<close>

definition then_run :: "run \<Rightarrow> run \<Rightarrow> run" where
  "then_run a b = (case snd a of None \<Rightarrow> (fst a @ fst b, snd b) | Some e \<Rightarrow> a)"

text \<open>
  Python's \<open>try: body except E: handler finally: finalizer\<close>. The handler runs when
  the body raised an exception that \<open>E\<close> catches. The finalizer runs in every case;
  an exception of its own replaces a pending one, and otherwise a pending one is raised
  again after it.
\<close>

definition try_except_finally :: "run \<Rightarrow> (exn \<Rightarrow> bool) \<Rightarrow> run \<Rightarrow> run \<Rightarrow> run" where
  "try_except_finally body catches handler finalizer =
     (let guarded =
        (case snd body of
           None \<Rightarrow> body
         | Some e \<Rightarrow> if catches e then (fst body @ fst handler, snd handler) else body)
      in (fst guarded @ fst finalizer,
          case snd finalizer of None \<Rightarrow> snd guarded | Some e \<Rightarrow> Some e))"

subsection \<open>The script\<close>

definition MODEL_PATH :: string where
  "MODEL_PATH = ''ppo_deeragentrl.zip''"

definition total_timesteps :: nat where
  "total_timesteps = 200000"

definition new_model_hyperparams :: hyperparams where
  "new_model_hyperparams =
     \<lparr>policy = ''MultiInputPolicy'', verbose = 1, n_steps = 2048, batch_size = 256,
      learning_rate = 1 / 1000, max_grad_norm = 1, ent_coef = 1 / 1000, gamma = 9 / 10,
      gae_lambda = 95 / 100\<rparr>"

text \<open>Lines 78 to 94.\<close>

definition load_or_create :: "world \<Rightarrow> run" where
  "load_or_create w =
     (if path_exists w MODEL_PATH
      then then_run (print_line (Loading_existing MODEL_PATH))
                    (call (PPO_load MODEL_PATH) (load_raises w))
      else then_run (print_line Creating_new)
                    (call (PPO_new new_model_hyperparams) (new_raises w)))"

text \<open>Lines 101 to 103.\<close>

definition banner :: run where
  "banner =
     then_run (print_line Training_starts)
       (then_run (print_line (Target_timesteps total_timesteps))
          (print_line Watch_unity_logs))"

text \<open>Lines 105 to 115.\<close>

definition train_and_save :: "world \<Rightarrow> run" where
  "train_and_save w =
     try_except_finally
       (call (Learn total_timesteps) (learn_raises w))
       (\<lambda>e. e = KeyboardInterrupt)
       (print_line Interrupt_detected)
       (then_run (call (Save MODEL_PATH) (save_raises w))
                 (print_line (Model_saved MODEL_PATH)))"

definition script :: "world \<Rightarrow> run" where
  "script w = then_run (load_or_create w) (then_run banner (train_and_save w))"

text \<open>The process: the script's events, then its exit.\<close>

definition process :: "world \<Rightarrow> event list" where
  "process w = fst (script w) @ [Exit (snd (script w))]"

text \<open>The paths of the \<open>save\<close> calls among some events, in order.\<close>

fun saved_paths :: "event list \<Rightarrow> string list" where
  "saved_paths [] = []"
| "saved_paths (Save p # evs) = p # saved_paths evs"
| "saved_paths (ev # evs) = saved_paths evs"

subsection \<open>Sample worlds\<close>

text \<open>No model file yet; training runs to its end.\<close>

definition fresh_completed :: world where
  "fresh_completed =
     \<lparr>path_exists = (\<lambda>p. False), load_raises = None, new_raises = None,
      learn_raises = None, save_raises = None\<rparr>"

text \<open>A model file is there; the operator interrupts the training.\<close>

definition resumed_interrupted :: world where
  "resumed_interrupted =
     \<lparr>path_exists = (\<lambda>p. p = ''ppo_deeragentrl.zip''), load_raises = None, new_raises = None,
      learn_raises = Some KeyboardInterrupt, save_raises = None\<rparr>"

section \<open>Properties of one call\<close>

lemma on_step_no_marker:
  assumes "step_metadata locs = Inr i0" and "i0 ''episode'' = None"
  shows "on_step self locs = \<lparr>state = self, printed = [], outcome = Inr True\<rparr>"
  using assms by (simp add: on_step_def step_metadata_def)

text \<open>
  C3. When entry 0 of the infos batch carries no \<open>'episode'\<close> entry, a call leaves both
  histories as they were, prints nothing and returns \<open>True\<close>.
\<close>

theorem no_marker_no_effect:
  assumes "step_metadata locs = Inr i0" and "i0 ''episode'' = None"
  shows "episode_rewards (state (on_step self locs)) = episode_rewards self
       \<and> episode_lengths (state (on_step self locs)) = episode_lengths self
       \<and> printed (on_step self locs) = []
       \<and> outcome (on_step self locs) = Inr True"
  using assms by (simp add: on_step_no_marker)


theorem no_marker_no_effect_witness:
  "step_metadata plain_step = Inr Map.empty
   \<and> (Map.empty :: info) ''episode'' = None
   \<and> episode_rewards (state (on_step init plain_step)) = episode_rewards init
   \<and> episode_lengths (state (on_step init plain_step)) = episode_lengths init
   \<and> printed (on_step init plain_step) = []
   \<and> outcome (on_step init plain_step) = Inr True"
proof -
  have m: "step_metadata plain_step = Inr Map.empty"
    by (simp add: step_metadata_def plain_step_def dict_get_def index0_def)
  have e: "(Map.empty :: info) ''episode'' = None"
    by simp
  show ?thesis
    using m e no_marker_no_effect [OF m e, of init] by simp
qed

lemma episode_fields_marker:
  assumes "step_metadata locs = Inr i0" and "i0 ''episode'' = Some ep"
  shows "episode_fields locs =
           (case ep ''r'' of None \<Rightarrow> Inl KeyError
            | Some r \<Rightarrow> (case ep ''l'' of None \<Rightarrow> Inl KeyError | Some l \<Rightarrow> Inr (r, l)))"
  using assms
  by (auto simp: step_metadata_def episode_fields_def dict_get_def dict_item_def index0_def
           split: option.splits list.splits)

lemma on_step_marker:
  assumes "step_metadata locs = Inr i0" and "i0 ''episode'' = Some ep"
    and "ep ''r'' = Some r" and "ep ''l'' = Some l"
  shows "on_step self locs =
           \<lparr>state = append_episode self r l,
            printed = report (append_episode self r l),
            outcome = Inr True\<rparr>"
proof -
  have "episode_fields locs = Inr (r, l)"
    using assms by (simp add: episode_fields_marker)
  moreover have "index0 (dict_get locs ''infos'' [Map.empty]) = Inr i0"
    using assms(1) by (simp add: step_metadata_def)
  ultimately show ?thesis
    using assms(2) by (simp add: on_step_def)
qed

lemma on_step_key_error:
  assumes "step_metadata locs = Inr i0" and "i0 ''episode'' = Some ep"
    and "ep ''r'' = None \<or> ep ''l'' = None"
  shows "on_step self locs = \<lparr>state = self, printed = [], outcome = Inl KeyError\<rparr>"
proof -
  have "episode_fields locs = Inl KeyError"
    using assms by (auto simp: episode_fields_marker split: option.splits)
  moreover have "index0 (dict_get locs ''infos'' [Map.empty]) = Inr i0"
    using assms(1) by (simp add: step_metadata_def)
  ultimately show ?thesis
    using assms(2) by (simp add: on_step_def)
qed

lemma on_step_never_False: "outcome (on_step self locs) \<noteq> Inr False"
  by (auto simp: on_step_def split: sum.splits)

text \<open>
  C5. On a well-formed notification the call returns \<open>True\<close>, with or without an
  \<open>'episode'\<close> entry. On no notification at all does a call return \<open>False\<close>, the
  value that would stop the training.
\<close>

theorem well_formed_returns_True:
  assumes "well_formed locs"
  shows "outcome (on_step self locs) = Inr True
       \<and> outcome (on_step self' locs') \<noteq> Inr False"
proof (cases "step_metadata locs")
  case (Inl e)
  with assms show ?thesis by (simp add: well_formed_def)
next
  case (Inr i0)
  show ?thesis
  proof (cases "i0 ''episode''")
    case None
    with Inr show ?thesis by (simp add: on_step_no_marker on_step_never_False)
  next
    case (Some ep)
    with assms Inr obtain r l where "ep ''r'' = Some r" and "ep ''l'' = Some l"
      by (auto simp: well_formed_def)
    with Inr Some show ?thesis by (simp add: on_step_marker on_step_never_False)
  qed
qed

theorem well_formed_returns_True_witness:
  "well_formed plain_step \<and> outcome (on_step init plain_step) = Inr True
   \<and> well_formed (episode_end 3 7) \<and> outcome (on_step init (episode_end 3 7)) = Inr True
   \<and> outcome (on_step init empty_infos) \<noteq> Inr False"
proof -
  have a: "well_formed plain_step"
    by (simp add: well_formed_def step_metadata_def plain_step_def dict_get_def index0_def)
  have b: "well_formed (episode_end 3 7)"
    by (simp add: well_formed_def step_metadata_def episode_end_def dict_get_def index0_def)
  show ?thesis
    using a b well_formed_returns_True [OF a, of init init empty_infos]
      well_formed_returns_True [OF b, of init init empty_infos]
    by simp
qed

text \<open>
  C8. Two calls on the same attributes whose infos batches have the same entry 0 give
  the same attributes, the same printed lines and the same outcome, whatever the
  other entries of the batches and the other local variables are.
\<close>

theorem only_entry_0_is_read:
  assumes "locs1 ''infos'' = Some (i0 # rest1)" and "locs2 ''infos'' = Some (i0 # rest2)"
  shows "on_step self locs1 = on_step self locs2"
  using assms
  by (simp add: on_step_def episode_fields_def dict_get_def dict_item_def index0_def)

theorem only_entry_0_is_read_witness:
  "episode_end 3 7 ''infos'' = Some ([''episode'' \<mapsto> [''r'' \<mapsto> 3, ''l'' \<mapsto> 7]] # [])
   \<and> ((episode_end 3 7)(''infos'' \<mapsto> [[''episode'' \<mapsto> [''r'' \<mapsto> 3, ''l'' \<mapsto> 7]],
                                            [''episode'' \<mapsto> [''r'' \<mapsto> 100]], Map.empty],
                          ''dones'' \<mapsto> [])) ''infos''
       = Some ([''episode'' \<mapsto> [''r'' \<mapsto> 3, ''l'' \<mapsto> 7]]
               # [[''episode'' \<mapsto> [''r'' \<mapsto> 100]], Map.empty])
   \<and> on_step init (episode_end 3 7)
       = on_step init
           ((episode_end 3 7)(''infos'' \<mapsto> [[''episode'' \<mapsto> [''r'' \<mapsto> 3, ''l'' \<mapsto> 7]],
                                                [''episode'' \<mapsto> [''r'' \<mapsto> 100]], Map.empty],
                              ''dones'' \<mapsto> []))"
proof -
  let ?i0 = "[''episode'' \<mapsto> [''r'' \<mapsto> 3, ''l'' \<mapsto> 7]] :: info"
  let ?rest = "[[''episode'' \<mapsto> [''r'' \<mapsto> 100]], Map.empty] :: info list"
  let ?locs2 = "(episode_end 3 7)(''infos'' \<mapsto> ?i0 # ?rest, ''dones'' \<mapsto> [])"
  have a: "episode_end 3 7 ''infos'' = Some (?i0 # [])"
    by (simp add: episode_end_def)
  have b: "?locs2 ''infos'' = Some (?i0 # ?rest)"
    by simp
  show ?thesis
    using a b
      only_entry_0_is_read [where ?locs1.0 = "episode_end 3 7" and ?locs2.0 = ?locs2
        and ?i0.0 = ?i0 and ?rest1.0 = "[]" and ?rest2.0 = ?rest and self = init]
    by simp
qed

lemma on_step_same_length:
  assumes "length (episode_rewards self) = length (episode_lengths self)"
  shows "length (episode_rewards (state (on_step self locs)))
       = length (episode_lengths (state (on_step self locs)))"
  using assms
  by (auto simp: on_step_def append_episode_def split: sum.splits)

lemma final_Cons:
  "final self (on_steps self (locs # rest)) =
     (case outcome (on_step self locs) of
        Inl e \<Rightarrow> state (on_step self locs)
      | Inr b \<Rightarrow> final (state (on_step self locs)) (on_steps (state (on_step self locs)) rest))"
  by (simp add: final_def split: sum.splits)

lemma on_steps_same_length:
  assumes "length (episode_rewards self) = length (episode_lengths self)"
  shows "length (episode_rewards (final self (on_steps self ls)))
       = length (episode_lengths (final self (on_steps self ls)))"
  using assms
proof (induction ls arbitrary: self)
  case Nil
  then show ?case by (simp add: final_def)
next
  case (Cons locs rest)
  have "length (episode_rewards (state (on_step self locs)))
      = length (episode_lengths (state (on_step self locs)))"
    using Cons.prems by (rule on_step_same_length)
  then show ?case
    using Cons.IH [of "state (on_step self locs)"]
    by (simp only: final_Cons split: sum.splits) simp
qed

text \<open>
  C9. When entry 0 has an \<open>'episode'\<close> entry that lacks \<open>'r'\<close> or \<open>'l'\<close>, the call
  raises \<open>KeyError\<close> with both histories as they were and nothing printed. After any
  run of calls from the fresh callback, raising or not, the two histories have the
  same length.
\<close>

theorem key_error_before_any_append:
  assumes "step_metadata locs = Inr i0" and "i0 ''episode'' = Some ep"
    and "ep ''r'' = None \<or> ep ''l'' = None"
  shows "outcome (on_step self locs) = Inl KeyError
       \<and> state (on_step self locs) = self
       \<and> printed (on_step self locs) = []
       \<and> length (episode_rewards (final init (on_steps init ls)))
         = length (episode_lengths (final init (on_steps init ls)))"
proof -
  have "length (episode_rewards init) = length (episode_lengths init)"
    by (simp add: init_def)
  then have "length (episode_rewards (final init (on_steps init ls)))
           = length (episode_lengths (final init (on_steps init ls)))"
    by (rule on_steps_same_length)
  then show ?thesis
    using assms by (simp add: on_step_key_error)
qed

theorem key_error_before_any_append_witness:
  "step_metadata (episode_end_no_length 3) = Inr [''episode'' \<mapsto> [''r'' \<mapsto> 3]]
   \<and> ([''episode'' \<mapsto> [''r'' \<mapsto> 3]] :: info) ''episode'' = Some [''r'' \<mapsto> 3]
   \<and> ([''r'' \<mapsto> 3] :: episode_info) ''l'' = None
   \<and> outcome (on_step (append_episode init 1 2) (episode_end_no_length 3)) = Inl KeyError
   \<and> state (on_step (append_episode init 1 2) (episode_end_no_length 3))
       = append_episode init 1 2
   \<and> printed (on_step (append_episode init 1 2) (episode_end_no_length 3)) = []
   \<and> length (episode_rewards
        (final init (on_steps init [episode_end 1 2, episode_end_no_length 3, plain_step])))
     = length (episode_lengths
        (final init (on_steps init [episode_end 1 2, episode_end_no_length 3, plain_step])))"
proof -
  let ?ep = "[''r'' \<mapsto> 3] :: episode_info"
  let ?i0 = "[''episode'' \<mapsto> ?ep] :: info"
  have a: "step_metadata (episode_end_no_length 3) = Inr ?i0"
    by (simp add: step_metadata_def episode_end_no_length_def dict_get_def index0_def)
  have b: "?i0 ''episode'' = Some ?ep"
    by simp
  have c: "?ep ''r'' = None \<or> ?ep ''l'' = None"
    by simp
  show ?thesis
    using a b c
      key_error_before_any_append [OF a b c, of "append_episode init 1 2"
        "[episode_end 1 2, episode_end_no_length 3, plain_step]"]
    by simp
qed

text \<open>
  C10. Without a key \<open>'infos'\<close> in the locals the call does not raise: it does what it
  does on a batch of one empty info dictionary, which is to leave the attributes as
  they were, print nothing and return \<open>True\<close>. With an empty batch under \<open>'infos'\<close>
  the call raises \<open>IndexError\<close>.
\<close>

theorem missing_infos_defaults_empty_infos_raises:
  "(locs ''infos'' = None \<longrightarrow>
      on_step self locs = \<lparr>state = self, printed = [], outcome = Inr True\<rparr>
      \<and> on_step self locs = on_step self (locs(''infos'' \<mapsto> [Map.empty])))
   \<and> (locs ''infos'' = Some [] \<longrightarrow>
      on_step self locs = \<lparr>state = self, printed = [], outcome = Inl IndexError\<rparr>)"
  by (simp add: on_step_def dict_get_def index0_def)

theorem missing_infos_defaults_empty_infos_raises_witness:
  "no_infos ''infos'' = None
   \<and> on_step init no_infos = \<lparr>state = init, printed = [], outcome = Inr True\<rparr>
   \<and> on_step init no_infos = on_step init plain_step
   \<and> empty_infos ''infos'' = Some []
   \<and> on_step init empty_infos = \<lparr>state = init, printed = [], outcome = Inl IndexError\<rparr>"
proof -
  have a: "no_infos ''infos'' = None"
    by (simp add: no_infos_def)
  have b: "empty_infos ''infos'' = Some []"
    by (simp add: empty_infos_def)
  have c: "no_infos(''infos'' \<mapsto> [Map.empty]) = plain_step"
    by (simp add: no_infos_def plain_step_def)
  have d: "on_step init no_infos = \<lparr>state = init, printed = [], outcome = Inr True\<rparr>
         \<and> on_step init no_infos = on_step init (no_infos(''infos'' \<mapsto> [Map.empty]))"
    using a missing_infos_defaults_empty_infos_raises [of no_infos init] by blast
  have e: "on_step init empty_infos
         = \<lparr>state = init, printed = [], outcome = Inl IndexError\<rparr>"
    using b missing_infos_defaults_empty_infos_raises [of empty_infos init] by blast
  show ?thesis
    using a b d e unfolding c by blast
qed

section \<open>Properties of runs of calls\<close>

lemma final_step: "final self (r # rs) = final (state r) rs"
  by (simp add: final_def)

lemma on_step_well_formed:
  assumes "well_formed locs"
  shows "on_step self locs =
           (case marker locs of
              None \<Rightarrow> \<lparr>state = self, printed = [], outcome = Inr True\<rparr>
            | Some (r, l) \<Rightarrow>
                \<lparr>state = append_episode self r l,
                 printed = report (append_episode self r l),
                 outcome = Inr True\<rparr>)"
proof (cases "step_metadata locs")
  case (Inl e)
  with assms show ?thesis by (simp add: well_formed_def)
next
  case (Inr i0)
  show ?thesis
  proof (cases "i0 ''episode''")
    case None
    with Inr show ?thesis by (simp add: on_step_no_marker marker_def)
  next
    case (Some ep)
    with assms Inr obtain r l where "ep ''r'' = Some r" and "ep ''l'' = Some l"
      by (auto simp: well_formed_def)
    with Inr Some show ?thesis by (simp add: on_step_marker marker_def)
  qed
qed

lemma carries_marker_well_formed:
  "well_formed locs \<Longrightarrow> carries_marker locs \<longleftrightarrow> marker locs \<noteq> None"
  by (auto simp: well_formed_def carries_marker_def marker_def split: sum.splits option.splits)

lemma final_well_formed:
  assumes "list_all well_formed ls"
  shows "episode_rewards (final self (on_steps self ls))
           = episode_rewards self @ map fst (List.map_filter marker ls)
       \<and> episode_lengths (final self (on_steps self ls))
           = episode_lengths self @ map snd (List.map_filter marker ls)"
  using assms
proof (induction ls arbitrary: self)
  case Nil
  then show ?case by (simp add: final_def)
next
  case (Cons locs rest)
  then have wf: "well_formed locs" and rest: "list_all well_formed rest"
    by simp_all
  show ?case
  proof (cases "marker locs")
    case None
    then have "on_step self locs = \<lparr>state = self, printed = [], outcome = Inr True\<rparr>"
      using wf by (simp add: on_step_well_formed)
    then show ?thesis
      using Cons.IH [OF rest, of self] None by (simp add: final_step)
  next
    case (Some p)
    obtain r l where p: "p = (r, l)" by (cases p)
    have "on_step self locs =
            \<lparr>state = append_episode self r l,
             printed = report (append_episode self r l), outcome = Inr True\<rparr>"
      using wf Some p by (simp add: on_step_well_formed)
    then show ?thesis
      using Cons.IH [OF rest, of "append_episode self r l"] Some p
      by (simp add: final_step append_episode_def)
  qed
qed

lemma length_map_filter:
  "length (List.map_filter f xs) = length (filter (\<lambda>x. f x \<noteq> None) xs)"
  by (induction xs) (auto split: option.splits)

lemma filter_carries_marker:
  "list_all well_formed ls \<Longrightarrow>
     filter carries_marker ls = filter (\<lambda>x. marker x \<noteq> None) ls"
  by (induction ls) (auto simp: carries_marker_well_formed)

text \<open>
  C4. After a run of well-formed notifications to the fresh callback, the reward
  history and the length history are the rewards and the lengths of the markers
  carried, in the order of the calls; each has as many entries as there were
  notifications carrying a marker, however many others came in between.
\<close>

theorem histories_are_the_markers_in_order:
  assumes "list_all well_formed ls"
  shows "episode_rewards (final init (on_steps init ls)) = map fst (List.map_filter marker ls)
       \<and> episode_lengths (final init (on_steps init ls)) = map snd (List.map_filter marker ls)
       \<and> length (episode_rewards (final init (on_steps init ls)))
           = length (filter carries_marker ls)
       \<and> length (episode_lengths (final init (on_steps init ls)))
           = length (filter carries_marker ls)"
proof -
  note h = final_well_formed [OF assms, of init]
  have n: "length (List.map_filter marker ls) = length (filter carries_marker ls)"
    using assms by (simp add: length_map_filter filter_carries_marker)
  show ?thesis
    using h n by (simp add: init_def)
qed

lemma well_formed_samples:
  "well_formed plain_step" "well_formed no_infos" "well_formed (episode_end r l)"
  by (simp_all add: well_formed_def step_metadata_def dict_get_def index0_def
        plain_step_def no_infos_def episode_end_def)

lemma marker_samples:
  "marker plain_step = None" "marker no_infos = None" "marker (episode_end r l) = Some (r, l)"
  by (simp_all add: marker_def step_metadata_def dict_get_def index0_def
        plain_step_def no_infos_def episode_end_def)

lemma carries_marker_samples:
  "\<not> carries_marker plain_step" "\<not> carries_marker no_infos" "carries_marker (episode_end r l)"
  by (simp_all add: carries_marker_def step_metadata_def dict_get_def index0_def
        plain_step_def no_infos_def episode_end_def)

theorem histories_are_the_markers_in_order_witness:
  "list_all well_formed [plain_step, episode_end 1 10, no_infos, episode_end 2 20, plain_step]
   \<and> episode_rewards (final init (on_steps init
        [plain_step, episode_end 1 10, no_infos, episode_end 2 20, plain_step])) = [1, 2]
   \<and> episode_lengths (final init (on_steps init
        [plain_step, episode_end 1 10, no_infos, episode_end 2 20, plain_step])) = [10, 20]
   \<and> length (filter carries_marker
        [plain_step, episode_end 1 10, no_infos, episode_end 2 20, plain_step]) = 2"
proof -
  let ?ls = "[plain_step, episode_end 1 10, no_infos, episode_end 2 20, plain_step]"
  have wf: "list_all well_formed ?ls"
    by (simp add: well_formed_samples)
  show ?thesis
    using wf histories_are_the_markers_in_order [OF wf]
    by (simp add: marker_samples carries_marker_samples)
qed

lemma on_steps_nth:
  assumes "k < length (on_steps self ls)"
  shows "on_steps self ls ! k = on_step (final self (on_steps self (take k ls))) (ls ! k)"
  using assms
proof (induction ls arbitrary: self k)
  case Nil
  then show ?case by simp
next
  case (Cons locs rest)
  show ?case
  proof (cases k)
    case 0
    then show ?thesis by (simp add: final_def)
  next
    case (Suc j)
    with Cons.prems obtain b where b: "outcome (on_step self locs) = Inr b"
      by (cases "outcome (on_step self locs)") simp_all
    with Cons.prems Suc have "j < length (on_steps (state (on_step self locs)) rest)"
      by simp
    from Cons.IH [OF this] show ?thesis
      using Suc b by (simp add: final_step)
  qed
qed

lemma on_step_prints_iff:
  "printed (on_step self locs) \<noteq> [] \<longleftrightarrow>
     length (episode_rewards (state (on_step self locs))) = Suc (length (episode_rewards self))
     \<and> length (episode_rewards (state (on_step self locs))) mod 10 = 0"
  by (auto simp: on_step_def report_def append_episode_def split: sum.splits)

lemma on_step_episode_end:
  "on_step self (episode_end r l) =
     \<lparr>state = append_episode self r l,
      printed = report (append_episode self r l), outcome = Inr True\<rparr>"
  by (simp add: on_step_def episode_fields_def dict_get_def dict_item_def index0_def
        episode_end_def)

lemma on_step_plain_step:
  "on_step self plain_step = \<lparr>state = self, printed = [], outcome = Inr True\<rparr>"
  by (simp add: on_step_def dict_get_def index0_def plain_step_def)

lemmas run_samples =
  episodes_def one_to_ten_def eleven_to_fifteen_def eleven_to_twenty_def
  on_step_episode_end on_step_plain_step init_def append_episode_def report_def
  last10_def final_def ten_tens_def

text \<open>
  C1, as it holds. In any run of calls from the fresh callback, a call prints a
  progress line exactly when it has appended an episode outcome and the reward history
  then has a length that is a positive multiple of 10.
\<close>

theorem line_iff_tenth_append:
  assumes "k < length (on_steps init ls)"
  shows "printed (on_steps init ls ! k) \<noteq> [] \<longleftrightarrow>
           length (episode_rewards (state (on_steps init ls ! k)))
             = Suc (length (episode_rewards (final init (on_steps init (take k ls)))))
           \<and> 0 < length (episode_rewards (state (on_steps init ls ! k)))
           \<and> length (episode_rewards (state (on_steps init ls ! k))) mod 10 = 0"
  using on_steps_nth [OF assms]
    on_step_prints_iff [of "final init (on_steps init (take k ls))" "ls ! k"]
  by auto

theorem line_iff_tenth_append_witness:
  "9 < length (on_steps init (episodes one_to_ten @ [plain_step]))
   \<and> printed (on_steps init (episodes one_to_ten @ [plain_step]) ! 9) \<noteq> []
   \<and> length (episode_rewards (state (on_steps init (episodes one_to_ten @ [plain_step]) ! 9)))
       = Suc (length (episode_rewards
           (final init (on_steps init (take 9 (episodes one_to_ten @ [plain_step]))))))
   \<and> length (episode_rewards (state (on_steps init (episodes one_to_ten @ [plain_step]) ! 9)))
       = 10"
proof -
  let ?ls = "episodes one_to_ten @ [plain_step]"
  have k: "9 < length (on_steps init ?ls)"
    by (simp add: run_samples)
  have p: "printed (on_steps init ?ls ! 9) \<noteq> []"
    by (simp add: run_samples)
  have n: "length (episode_rewards (state (on_steps init ?ls ! 9))) = 10"
    by (simp add: run_samples)
  show ?thesis
    using k p n line_iff_tenth_append [OF k] by blast
qed

text \<open>
  C1, as it is stated, fails: after ten episode ends a step without a marker leaves
  the reward history at length 10, a positive multiple of 10, and prints nothing.
\<close>

theorem line_iff_length_multiple_of_10_counterexample:
  "\<not> (printed (on_steps init (episodes one_to_ten @ [plain_step]) ! 10) \<noteq> [] \<longleftrightarrow>
        0 < length (episode_rewards
              (state (on_steps init (episodes one_to_ten @ [plain_step]) ! 10)))
        \<and> length (episode_rewards
              (state (on_steps init (episodes one_to_ten @ [plain_step]) ! 10))) mod 10 = 0)"
  by (simp add: run_samples)


lemma on_steps_take_same_length:
  "length (episode_rewards (final init (on_steps init (take k ls))))
   = length (episode_lengths (final init (on_steps init (take k ls))))"
  by (rule on_steps_same_length) (simp add: init_def)

lemma on_step_window:
  assumes "length (episode_rewards self) = length (episode_lengths self)"
    and "printed (on_step self locs) \<noteq> []"
  shows "10 \<le> length (episode_rewards (state (on_step self locs)))
       \<and> length (episode_lengths (state (on_step self locs)))
           = length (episode_rewards (state (on_step self locs)))
       \<and> printed (on_step self locs) =
           [Debug (drop (length (episode_rewards (state (on_step self locs))) - 10)
                    (episode_rewards (state (on_step self locs))))
                  (drop (length (episode_lengths (state (on_step self locs))) - 10)
                    (episode_lengths (state (on_step self locs))))]"
proof -
  let ?s = "state (on_step self locs)"
  have n: "length (episode_rewards ?s) = Suc (length (episode_rewards self))"
    and m: "length (episode_rewards ?s) mod 10 = 0"
    using assms(2) on_step_prints_iff [of self locs] by blast+
  have ten: "10 \<le> length (episode_rewards ?s)"
    using n m by presburger
  have same: "length (episode_lengths ?s) = length (episode_rewards ?s)"
    using on_step_same_length [OF assms(1), of locs] by simp
  have "printed (on_step self locs) = report ?s"
    using assms(2) by (auto simp: on_step_def split: sum.splits if_splits)
  then have "printed (on_step self locs) =
      [Debug (last10 (episode_rewards ?s)) (last10 (episode_lengths ?s))]"
    using m by (simp add: report_def)
  then show ?thesis
    using ten same by (simp add: last10_def)
qed

lemma drop_all_but_10:
  assumes "10 \<le> length xs"
  shows "length (drop (length xs - 10) xs) = 10"
  using assms by simp

text \<open>
  C2, as it holds. In any run of calls from the fresh callback, a call that prints a
  progress line prints one line, and the two values it shows are \<open>np.mean\<close> of the last
  10 entries of the reward history and \<open>np.mean\<close> of the last 10 entries of the length
  history, whatever \<open>np.mean\<close> computes; both histories have at least 10 entries then, so
  each slice has exactly 10. With rewards 1 to 10 and lengths 10 the tenth call shows
  the means of these ten rewards and ten lengths. With rewards 1 to 15 the fifteenth
  call prints nothing. With rewards 1 to 20 the twentieth call shows the mean of the
  rewards 11 to 20 only, out of a history of all twenty.
\<close>

theorem line_reports_means_of_last_10:
  "(k < length (on_steps init ls) \<longrightarrow> printed (on_steps init ls ! k) \<noteq> [] \<longrightarrow>
      10 \<le> length (episode_rewards (state (on_steps init ls ! k)))
      \<and> length (episode_lengths (state (on_steps init ls ! k)))
          = length (episode_rewards (state (on_steps init ls ! k)))
      \<and> printed (on_steps init ls ! k) =
          [Debug (drop (length (episode_rewards (state (on_steps init ls ! k))) - 10)
                   (episode_rewards (state (on_steps init ls ! k))))
                 (drop (length (episode_lengths (state (on_steps init ls ! k))) - 10)
                   (episode_lengths (state (on_steps init ls ! k))))]
      \<and> map (shown np_mean) (printed (on_steps init ls ! k)) =
          [(np_mean (drop (length (episode_rewards (state (on_steps init ls ! k))) - 10)
                      (episode_rewards (state (on_steps init ls ! k)))),
            np_mean (drop (length (episode_lengths (state (on_steps init ls ! k))) - 10)
                      (episode_lengths (state (on_steps init ls ! k)))))]
      \<and> length (drop (length (episode_rewards (state (on_steps init ls ! k))) - 10)
                 (episode_rewards (state (on_steps init ls ! k)))) = 10
      \<and> length (drop (length (episode_lengths (state (on_steps init ls ! k))) - 10)
                 (episode_lengths (state (on_steps init ls ! k)))) = 10)
   \<and> printed (on_steps init (episodes one_to_ten) ! 9) = [Debug one_to_ten ten_tens]
   \<and> printed (on_steps init (episodes (one_to_ten @ eleven_to_fifteen)) ! 14) = []
   \<and> printed (on_steps init (episodes (one_to_ten @ eleven_to_twenty)) ! 19)
       = [Debug eleven_to_twenty ten_tens]
   \<and> episode_rewards (state (on_steps init (episodes (one_to_ten @ eleven_to_twenty)) ! 19))
       = one_to_ten @ eleven_to_twenty"
  (is "(?K \<longrightarrow> ?P \<longrightarrow> ?G) \<and> ?T")
proof -
  have general: ?G if k: ?K and p: ?P
  proof -
    let ?before = "final init (on_steps init (take k ls))"
    let ?r = "on_steps init ls ! k"
    have nth: "?r = on_step ?before (ls ! k)"
      using k by (rule on_steps_nth)
    have "printed (on_step ?before (ls ! k)) \<noteq> []"
      using p nth by simp
    with on_steps_take_same_length [of k ls]
    have w: "10 \<le> length (episode_rewards (state ?r))
       \<and> length (episode_lengths (state ?r)) = length (episode_rewards (state ?r))
       \<and> printed ?r =
           [Debug (drop (length (episode_rewards (state ?r)) - 10) (episode_rewards (state ?r)))
                  (drop (length (episode_lengths (state ?r)) - 10) (episode_lengths (state ?r)))]"
      unfolding nth by (rule on_step_window)
    then have tr: "10 \<le> length (episode_rewards (state ?r))"
      and tl: "10 \<le> length (episode_lengths (state ?r))"
      by simp_all
    have a: "length (drop (length (episode_rewards (state ?r)) - 10)
                 (episode_rewards (state ?r))) = 10"
      using tr by (rule drop_all_but_10)
    have b: "length (drop (length (episode_lengths (state ?r)) - 10)
                 (episode_lengths (state ?r))) = 10"
      using tl by (rule drop_all_but_10)
    have c: "map (shown np_mean) (printed ?r) =
          [(np_mean (drop (length (episode_rewards (state ?r)) - 10)
                      (episode_rewards (state ?r))),
            np_mean (drop (length (episode_lengths (state ?r)) - 10)
                      (episode_lengths (state ?r))))]"
      using w by (simp add: shown_def)
    note w1 = conjunct1 [OF w]
      and w2 = conjunct1 [OF conjunct2 [OF w]]
      and w3 = conjunct2 [OF conjunct2 [OF w]]
    show ?thesis
      by (intro conjI) (rule w1 w2 w3 a b c)+
  qed
  have ten: "printed (on_steps init (episodes one_to_ten) ! 9) = [Debug one_to_ten ten_tens]"
    by (simp add: run_samples)
  have fifteen: "printed (on_steps init (episodes (one_to_ten @ eleven_to_fifteen)) ! 14) = []"
    by (simp add: run_samples)
  have twenty: "printed (on_steps init (episodes (one_to_ten @ eleven_to_twenty)) ! 19)
       = [Debug eleven_to_twenty ten_tens]"
    by (simp add: run_samples)
  have full: "episode_rewards
        (state (on_steps init (episodes (one_to_ten @ eleven_to_twenty)) ! 19))
       = one_to_ten @ eleven_to_twenty"
    by (simp add: run_samples)
  have "?K \<longrightarrow> ?P \<longrightarrow> ?G"
    by (intro impI) (rule general)
  moreover have ?T
    using ten fifteen twenty full by (intro conjI)
  ultimately show ?thesis
    by (rule conjI)
qed

theorem line_reports_means_of_last_10_witness:
  "19 < length (on_steps init (episodes (one_to_ten @ eleven_to_twenty)))
   \<and> printed (on_steps init (episodes (one_to_ten @ eleven_to_twenty)) ! 19) \<noteq> []
   \<and> episode_rewards (state (on_steps init (episodes (one_to_ten @ eleven_to_twenty)) ! 19))
       = one_to_ten @ eleven_to_twenty
   \<and> printed (on_steps init (episodes (one_to_ten @ eleven_to_twenty)) ! 19)
       = [Debug (drop (20 - 10) (one_to_ten @ eleven_to_twenty)) ten_tens]
   \<and> map (shown length) (printed (on_steps init (episodes (one_to_ten @ eleven_to_twenty)) ! 19))
       = [(10, 10)]"
proof -
  let ?ls = "episodes (one_to_ten @ eleven_to_twenty)"
  have k: "19 < length (on_steps init ?ls)"
    by (simp add: run_samples)
  have p: "printed (on_steps init ?ls ! 19) \<noteq> []"
    by (simp add: run_samples)
  have r: "episode_rewards (state (on_steps init ?ls ! 19)) = one_to_ten @ eleven_to_twenty"
    by (simp add: run_samples)
  have l: "episode_lengths (state (on_steps init ?ls ! 19)) = ten_tens @ ten_tens"
    by (simp add: run_samples)
  note g = mp [OF mp [OF conjunct1 [OF line_reports_means_of_last_10 [of 19 ?ls length]] k] p]
  note e = conjunct1 [OF conjunct2 [OF conjunct2 [OF g]]]
  note f = conjunct1 [OF conjunct2 [OF conjunct2 [OF conjunct2 [OF g]]]]
  from e have q: "printed (on_steps init ?ls ! 19)
       = [Debug (drop (20 - 10) (one_to_ten @ eleven_to_twenty)) ten_tens]"
    unfolding r l by (simp add: one_to_ten_def eleven_to_twenty_def ten_tens_def)
  from f have "map (shown length) (printed (on_steps init ?ls ! 19)) = [(10, 10)]"
    unfolding r l by (simp add: one_to_ten_def eleven_to_twenty_def ten_tens_def)
  with k p r q show ?thesis
    by (intro conjI)
qed

lemma float64_div:
  assumes "\<bar>m\<bar> < 2 ^ 53" and "n \<le> 1074"
  shows "real_of_int m / 2 ^ n \<in> float64"
proof -
  have "real_of_int m / 2 ^ n = real_of_int m * 2 powi (- int n)"
    by (simp add: power_int_minus field_simps)
  moreover have "- 1074 \<le> - int n" "- int n \<le> 971"
    using assms(2) by simp_all
  ultimately show ?thesis
    unfolding float64_def using assms(1) by blast
qed

lemma tenths_float64: "set tenths \<subseteq> float64"
  using float64_div [of 3602879701896397 55] float64_div [of 3602879701896397 54]
    float64_div [of 5404319552844595 54] float64_div [of 3602879701896397 53]
    float64_div [of 1 1] float64_div [of 5404319552844595 53]
    float64_div [of 3152519739159347 52] float64_div [of 3602879701896397 52]
    float64_div [of 8106479329266893 53] float64_div [of 1 0]
  by (simp add: tenths_def)

lemma powi_split:
  assumes "a \<le> b"
  shows "(2::real) powi b = 2 powi a * 2 ^ nat (b - a)"
proof -
  have "(2::real) powi (a + (b - a)) = 2 powi a * 2 powi (b - a)"
    by (rule power_int_add) simp
  moreover have "(2::real) powi (b - a) = 2 ^ nat (b - a)"
    using assms by (simp add: power_int_def)
  ultimately show ?thesis by simp
qed

lemma odd_not_scaled:
  fixes N m :: int
  assumes "odd N" and "2 ^ 53 \<le> N" and "\<bar>m\<bar> < 2 ^ 53"
  shows "real_of_int N * 2 powi a \<noteq> real_of_int m * 2 powi b"
proof
  assume eq: "real_of_int N * 2 powi a = real_of_int m * 2 powi b"
  have pos: "(0::real) < 2 powi a" "(0::real) < 2 powi b"
    by simp_all
  show False
  proof (cases "a \<le> b")
    case True
    define d where "d = nat (b - a)"
    have "real_of_int N * 2 powi a = real_of_int m * 2 ^ d * 2 powi a"
      using eq powi_split [OF True] by (simp add: d_def)
    then have "real_of_int N = real_of_int m * 2 ^ d"
      using pos(1) by simp
    then have "real_of_int N = real_of_int (m * 2 ^ d)"
      by simp
    then have n: "N = m * 2 ^ d"
      by (simp only: of_int_eq_iff)
    show False
    proof (cases d)
      case 0
      with n assms(2,3) show False by simp
    next
      case (Suc d')
      with n have "even N" by simp
      with assms(1) show False by simp
    qed
  next
    case False
    then have le: "b \<le> a" by simp
    define d where "d = nat (a - b)"
    have "real_of_int N * 2 ^ d * 2 powi b = real_of_int m * 2 powi b"
      using eq powi_split [OF le] by (simp add: d_def)
    then have "real_of_int N * 2 ^ d = real_of_int m"
      using pos(2) by simp
    then have "real_of_int (N * 2 ^ d) = real_of_int m"
      by simp
    then have m: "m = N * 2 ^ d"
      by (simp only: of_int_eq_iff)
    have "N * 1 \<le> N * 2 ^ d"
      using assms(2) by (intro mult_left_mono) simp_all
    with m assms(2,3) show False by simp
  qed
qed

lemma mean_tenths_not_float64: "sum_list tenths / 10 \<notin> float64"
proof
  assume "sum_list tenths / 10 \<in> float64"
  then obtain m e :: int where m: "\<bar>m\<bar> < 2 ^ 53"
    and eq: "sum_list tenths / 10 = real_of_int m * 2 powi e"
    unfolding float64_def by blast
  have "sum_list tenths / 10 = real_of_int 39631676720860365 * 2 powi (- 56)"
    by (simp add: tenths_def power_int_minus)
  with eq have "real_of_int 39631676720860365 * 2 powi (- 56) = real_of_int m * 2 powi e"
    by simp
  moreover have "odd (39631676720860365 :: int)" "(2::int) ^ 53 \<le> 39631676720860365"
    by simp_all
  ultimately show False
    using odd_not_scaled [of 39631676720860365 m "- 56" e] m by blast
qed

text \<open>
  C2, as it is stated, fails. The rewards of ten episodes are the float64 values
  nearest to 0.1, 0.2, ..., 1.0. The tenth call prints the line that shows \<open>np.mean\<close>
  of exactly these ten rewards. Their arithmetic mean is
  \<open>39631676720860365 / 2 ^ 56\<close>, which is not a float64 value; \<open>np.mean\<close> returns a
  float64, so the reward mean the line reports is not the arithmetic mean of the last
  10 rewards.
\<close>

theorem reported_mean_is_arithmetic_mean_counterexample:
  "set tenths \<subseteq> float64
   \<and> printed (on_steps init (episodes tenths) ! 9) = [Debug tenths ten_tens]
   \<and> sum_list tenths / 10 = 39631676720860365 / 2 ^ 56
   \<and> sum_list tenths / 10 \<notin> float64"
proof -
  have "printed (on_steps init (episodes tenths) ! 9) = [Debug tenths ten_tens]"
    by (simp add: run_samples tenths_def)
  moreover have "sum_list tenths / 10 = 39631676720860365 / 2 ^ 56"
    by (simp add: tenths_def)
  ultimately show ?thesis
    using tenths_float64 mean_tenths_not_float64 by (intro conjI)
qed

section \<open>Properties of the training script\<close>

lemma load_or_create_exists:
  assumes "path_exists w MODEL_PATH"
  shows "load_or_create w =
           ([Print (Loading_existing MODEL_PATH), PPO_load MODEL_PATH], load_raises w)"
  using assms by (simp add: load_or_create_def then_run_def print_line_def call_def)

lemma load_or_create_absent:
  assumes "\<not> path_exists w MODEL_PATH"
  shows "load_or_create w =
           ([Print Creating_new, PPO_new new_model_hyperparams], new_raises w)"
  using assms by (simp add: load_or_create_def then_run_def print_line_def call_def)

lemma saved_paths_append: "saved_paths (xs @ ys) = saved_paths xs @ saved_paths ys"
  by (induction xs rule: saved_paths.induct) simp_all

lemma saved_paths_load_or_create: "saved_paths (fst (load_or_create w)) = []"
  by (cases "path_exists w MODEL_PATH") (simp_all add: load_or_create_exists load_or_create_absent)

lemma banner_run:
  "banner =
     ([Print Training_starts, Print (Target_timesteps total_timesteps), Print Watch_unity_logs],
      None)"
  by (simp add: banner_def then_run_def print_line_def)

lemma train_and_save_completed:
  assumes "learn_raises w = None"
  shows "train_and_save w =
           (if save_raises w = None
            then [Learn total_timesteps, Save MODEL_PATH, Print (Model_saved MODEL_PATH)]
            else [Learn total_timesteps, Save MODEL_PATH],
            save_raises w)"
  using assms
  by (auto simp: train_and_save_def try_except_finally_def then_run_def print_line_def call_def
           split: option.splits)

lemma train_and_save_interrupted:
  assumes "learn_raises w = Some KeyboardInterrupt"
  shows "train_and_save w =
           (if save_raises w = None
            then [Learn total_timesteps, Print Interrupt_detected, Save MODEL_PATH,
                  Print (Model_saved MODEL_PATH)]
            else [Learn total_timesteps, Print Interrupt_detected, Save MODEL_PATH],
            save_raises w)"
  using assms
  by (auto simp: train_and_save_def try_except_finally_def then_run_def print_line_def call_def
           split: option.splits)

lemma script_after_startup:
  assumes "snd (load_or_create w) = None"
  shows "script w =
           (fst (load_or_create w) @ fst banner @ fst (train_and_save w),
            snd (train_and_save w))"
  using assms by (simp add: script_def then_run_def banner_run)

text \<open>
  C6. When the model has been loaded or created, and \<open>model.learn\<close> either returns or
  is left by a \<open>KeyboardInterrupt\<close>, the process calls \<open>save\<close> exactly once, with the
  fixed path, and before it exits; it exits with what \<open>save\<close> raised, that is without
  an exception when \<open>save\<close> returned. With \<open>save\<close> returning, training that returns
  is followed by the save and the saved-line, and training that is interrupted is
  followed by the interrupt-line, the save and the saved-line.
\<close>

theorem one_save_on_completion_and_on_interrupt:
  assumes "snd (load_or_create w) = None"
    and "learn_raises w = None \<or> learn_raises w = Some KeyboardInterrupt"
  shows "saved_paths (process w) = [MODEL_PATH]
       \<and> saved_paths (butlast (process w)) = [MODEL_PATH]
       \<and> last (process w) = Exit (save_raises w)
       \<and> (if save_raises w = None
          then train_and_save w =
                 (if learn_raises w = None
                  then [Learn total_timesteps, Save MODEL_PATH, Print (Model_saved MODEL_PATH)]
                  else [Learn total_timesteps, Print Interrupt_detected, Save MODEL_PATH,
                        Print (Model_saved MODEL_PATH)],
                  None)
          else snd (train_and_save w) = save_raises w)"
proof -
  have t: "train_and_save w =
      (if save_raises w = None
       then (if learn_raises w = None
             then [Learn total_timesteps, Save MODEL_PATH, Print (Model_saved MODEL_PATH)]
             else [Learn total_timesteps, Print Interrupt_detected, Save MODEL_PATH,
                   Print (Model_saved MODEL_PATH)])
       else (if learn_raises w = None
             then [Learn total_timesteps, Save MODEL_PATH]
             else [Learn total_timesteps, Print Interrupt_detected, Save MODEL_PATH]),
       save_raises w)"
    using assms(2) by (auto simp: train_and_save_completed train_and_save_interrupted)
  have s: "saved_paths (fst (train_and_save w)) = [MODEL_PATH]"
    by (simp add: t)
  have p: "process w =
      (fst (load_or_create w) @ fst banner @ fst (train_and_save w)) @ [Exit (save_raises w)]"
    using assms(1) by (simp add: process_def script_after_startup t)
  have "saved_paths (process w) = [MODEL_PATH]"
    unfolding p by (simp add: saved_paths_append saved_paths_load_or_create banner_run s)
  moreover have "saved_paths (butlast (process w)) = [MODEL_PATH]"
    unfolding p butlast_snoc
    by (simp add: saved_paths_append saved_paths_load_or_create banner_run s)
  moreover have "last (process w) = Exit (save_raises w)"
    unfolding p by (rule last_snoc)
  moreover have "if save_raises w = None
          then train_and_save w =
                 (if learn_raises w = None
                  then [Learn total_timesteps, Save MODEL_PATH, Print (Model_saved MODEL_PATH)]
                  else [Learn total_timesteps, Print Interrupt_detected, Save MODEL_PATH,
                        Print (Model_saved MODEL_PATH)],
                  None)
          else snd (train_and_save w) = save_raises w"
    by (simp add: t)
  ultimately show ?thesis
    by (intro conjI)
qed

theorem one_save_on_completion_and_on_interrupt_witness:
  "snd (load_or_create resumed_interrupted) = None
   \<and> learn_raises resumed_interrupted = Some KeyboardInterrupt
   \<and> saved_paths (process resumed_interrupted) = [''ppo_deeragentrl.zip'']
   \<and> last (process resumed_interrupted) = Exit None
   \<and> train_and_save resumed_interrupted =
       ([Learn 200000, Print Interrupt_detected, Save ''ppo_deeragentrl.zip'',
         Print (Model_saved ''ppo_deeragentrl.zip'')], None)
   \<and> snd (load_or_create fresh_completed) = None
   \<and> learn_raises fresh_completed = None
   \<and> saved_paths (process fresh_completed) = [''ppo_deeragentrl.zip'']
   \<and> last (process fresh_completed) = Exit None
   \<and> train_and_save fresh_completed =
       ([Learn 200000, Save ''ppo_deeragentrl.zip'',
         Print (Model_saved ''ppo_deeragentrl.zip'')], None)"
proof -
  have a: "snd (load_or_create resumed_interrupted) = None"
    by (simp add: load_or_create_def resumed_interrupted_def MODEL_PATH_def then_run_def
          print_line_def call_def)
  have b: "learn_raises resumed_interrupted = None
         \<or> learn_raises resumed_interrupted = Some KeyboardInterrupt"
    by (simp add: resumed_interrupted_def)
  have c: "snd (load_or_create fresh_completed) = None"
    by (simp add: load_or_create_def fresh_completed_def then_run_def print_line_def call_def)
  have d: "learn_raises fresh_completed = None
         \<or> learn_raises fresh_completed = Some KeyboardInterrupt"
    by (simp add: fresh_completed_def)
  note i = one_save_on_completion_and_on_interrupt [OF a b]
  note f = one_save_on_completion_and_on_interrupt [OF c d]
  have sr: "save_raises resumed_interrupted = None" "save_raises fresh_completed = None"
    "learn_raises resumed_interrupted = Some KeyboardInterrupt"
    "learn_raises fresh_completed = None"
    by (simp_all add: resumed_interrupted_def fresh_completed_def)
  show ?thesis
    using a c i f by (simp add: sr MODEL_PATH_def total_timesteps_def)
qed

text \<open>
  C7. When the fixed path exists, the script prints the loading-line and calls
  \<open>PPO.load\<close> on that path, and constructs nothing; when it does not exist, the script
  prints the creating-line and constructs a model with the fixed hyperparameters, and
  loads nothing. Two worlds that agree on the existence of the path see the same
  events.
\<close>

theorem load_iff_model_file_exists:
  "(path_exists w MODEL_PATH \<longrightarrow>
      fst (load_or_create w) =
        [Print (Loading_existing ''ppo_deeragentrl.zip''), PPO_load ''ppo_deeragentrl.zip''])
   \<and> (\<not> path_exists w MODEL_PATH \<longrightarrow>
      fst (load_or_create w) =
        [Print Creating_new,
         PPO_new \<lparr>policy = ''MultiInputPolicy'', verbose = 1, n_steps = 2048,
                  batch_size = 256, learning_rate = 1 / 1000, max_grad_norm = 1,
                  ent_coef = 1 / 1000, gamma = 9 / 10, gae_lambda = 95 / 100\<rparr>])
   \<and> (path_exists w MODEL_PATH = path_exists w' MODEL_PATH \<longrightarrow>
      fst (load_or_create w) = fst (load_or_create w'))"
  by (simp add: load_or_create_def then_run_def print_line_def call_def MODEL_PATH_def
        new_model_hyperparams_def)

theorem load_iff_model_file_exists_witness:
  "path_exists resumed_interrupted MODEL_PATH
   \<and> fst (load_or_create resumed_interrupted) =
       [Print (Loading_existing ''ppo_deeragentrl.zip''), PPO_load ''ppo_deeragentrl.zip'']
   \<and> \<not> path_exists fresh_completed MODEL_PATH
   \<and> fst (load_or_create fresh_completed) =
       [Print Creating_new,
        PPO_new \<lparr>policy = ''MultiInputPolicy'', verbose = 1, n_steps = 2048,
                 batch_size = 256, learning_rate = 1 / 1000, max_grad_norm = 1,
                 ent_coef = 1 / 1000, gamma = 9 / 10, gae_lambda = 95 / 100\<rparr>]
   \<and> path_exists fresh_completed MODEL_PATH
       = path_exists (fresh_completed\<lparr>path_exists := (\<lambda>p. p = ''other.zip'')\<rparr>) MODEL_PATH
   \<and> fst (load_or_create fresh_completed)
       = fst (load_or_create (fresh_completed\<lparr>path_exists := (\<lambda>p. p = ''other.zip'')\<rparr>))"
proof -
  have a: "path_exists resumed_interrupted MODEL_PATH"
    by (simp add: resumed_interrupted_def MODEL_PATH_def)
  have b: "\<not> path_exists fresh_completed MODEL_PATH"
    by (simp add: fresh_completed_def)
  have c: "path_exists fresh_completed MODEL_PATH
       = path_exists (fresh_completed\<lparr>path_exists := (\<lambda>p. p = ''other.zip'')\<rparr>) MODEL_PATH"
    by (simp add: fresh_completed_def MODEL_PATH_def)
  show ?thesis
    using a b c
      load_iff_model_file_exists [of resumed_interrupted resumed_interrupted]
      load_iff_model_file_exists [of fresh_completed
        "fresh_completed\<lparr>path_exists := (\<lambda>p. p = ''other.zip'')\<rparr>"]
    by blast
qed


end
